theory Spec2Isabelle
  imports Main
begin

section \<open>JavaScript strings and objects, as far as the plugin uses them\<close>

text \<open>
  A JavaScript string is a sequence of UTF-16 code units. The model is a \<^typ>\<open>string\<close>
  whose characters stand for the code units below 256, so the white space of \<open>trim()\<close>
  and of the regular expression \<open>\s\<close> is TAB, LF, VT, FF, CR, SPACE and NBSP (0xA0);
  the white space code units above 255 are outside the model.
\<close>

definition is_space :: "char \<Rightarrow> bool" where
  "is_space ch = (ch \<in> set [CHR 0x09, CHR 0x0A, CHR 0x0B, CHR 0x0C, CHR 0x0D, CHR 0x20, CHR 0xA0])"

text \<open>\<open>String.prototype.trim\<close>.\<close>

definition trim :: "string \<Rightarrow> string" where
  "trim s = rev (dropWhile is_space (rev (dropWhile is_space s)))"

text \<open>\<open>s.startsWith(p)\<close>, \<open>s.includes(c)\<close> for a one-character \<open>c\<close>, \<open>s.indexOf(c)\<close>.\<close>

definition startsWith :: "string \<Rightarrow> string \<Rightarrow> bool" where
  "startsWith s p = (take (length p) s = p)"

definition str_includes :: "string \<Rightarrow> char \<Rightarrow> bool" where
  "str_includes s c = (c \<in> set s)"

definition indexOf :: "string \<Rightarrow> char \<Rightarrow> int" where
  "indexOf s c = (if c \<in> set s then int (length (takeWhile (\<lambda>x. x \<noteq> c) s)) else - 1)"

text \<open>\<open>xs.join(sep)\<close> on an array of strings.\<close>

fun join :: "string \<Rightarrow> string list \<Rightarrow> string" where
  "join sep [] = []"
| "join sep [x] = x"
| "join sep (x # y # ys) = x @ sep @ join sep (y # ys)"

text \<open>
  \<open>val.split(/[,\s]+/)\<close>: the pieces between the maximal runs of separators; a run at
  either end of the string leaves an empty piece there, and the empty string gives one
  empty piece.
\<close>

definition is_sep :: "char \<Rightarrow> bool" where
  "is_sep ch = (ch = CHR '','' \<or> is_space ch)"

function split_seps :: "string \<Rightarrow> string \<Rightarrow> string list" where
  "split_seps piece [] = [piece]"
| "split_seps piece (ch # rest) =
     (if is_sep ch then piece # split_seps [] (dropWhile is_sep rest)
      else split_seps (piece @ [ch]) rest)"
  by pat_completeness auto
termination
  by (relation "measure (\<lambda>(piece, s). length s)")
     (auto simp: le_imp_less_Suc length_dropWhile_le)

text \<open>
  A plain object with string values, as an association list in insertion order.
  \<open>obj[k] = v\<close> overwrites an own property in place and appends a new one; the key
  \<open>__proto__\<close> is the accessor of \<open>Object.prototype\<close>, whose setter ignores a string,
  so that assignment creates no property.
\<close>

type_synonym obj = "(string \<times> string) list"

fun assoc_set :: "string \<Rightarrow> string \<Rightarrow> obj \<Rightarrow> obj" where
  "assoc_set k v [] = [(k, v)]"
| "assoc_set k v ((k', v') # kvs) =
     (if k' = k then (k, v) # kvs else (k', v') # assoc_set k v kvs)"

definition obj_set :: "string \<Rightarrow> string \<Rightarrow> obj \<Rightarrow> obj" where
  "obj_set k v ob = (if k = ''__proto__'' then ob else assoc_set k v ob)"

text \<open>\<open>obj.k\<close>: \<open>None\<close> is \<open>undefined\<close>.\<close>

definition obj_get :: "obj \<Rightarrow> string \<Rightarrow> string option" where
  "obj_get ob k = map_of ob k"

text \<open>
  In a condition a value is truthy when it is a non-empty string; \<open>undefined\<close>,
  \<open>null\<close> and the empty string are falsy.
\<close>

definition truthy :: "string option \<Rightarrow> bool" where
  "truthy v = (case v of None \<Rightarrow> False | Some s \<Rightarrow> s \<noteq> [])"

text \<open>
  \<open>Object.entries(obj)\<close>: the own properties whose keys are array indices (canonical
  decimal numerals up to \<open>2^32 - 2\<close>) first, in ascending numeric order, then the others
  in insertion order.
\<close>

definition digit_val :: "char \<Rightarrow> int" where
  "digit_val ch = of_char ch - 48"

definition num_val :: "string \<Rightarrow> int" where
  "num_val k = foldl (\<lambda>n ch. 10 * n + digit_val ch) 0 k"

definition is_array_index :: "string \<Rightarrow> bool" where
  "is_array_index k =
     (k \<noteq> [] \<and> list_all (\<lambda>ch. ch \<in> set ''0123456789'') k \<and>
      (length k = 1 \<or> hd k \<noteq> CHR ''0'') \<and> num_val k \<le> 4294967294)"

definition entries :: "obj \<Rightarrow> (string \<times> string) list" where
  "entries ob =
     sort_key (\<lambda>(k, v). num_val k) (filter (\<lambda>(k, v). is_array_index k) ob) @
     filter (\<lambda>(k, v). \<not> is_array_index k) ob"

section \<open>The marker line parser\<close>

text \<open>The only failure \<open>parseMarkerLine\<close> could raise: a method call on \<open>undefined\<close>.\<close>

datatype js_error = TypeError

text \<open>
  The marker object \<open>{ kind, name, attrs }\<close>, its fields prefixed with \<open>m_\<close>; \<open>m_line\<close> is the property \<open>__line\<close> that
  \<open>markerBlock\<close> adds afterwards. \<open>None\<close> is an absent property (\<open>null\<close> for the name).
\<close>

record marker =
  m_kind :: "string option"
  m_name :: "string option"
  m_attrs :: obj
  m_line :: "nat option"

text \<open>
  The tokenizer loop of \<open>parseMarkerLine\<close>, over the characters still to read, with the
  loop's variables \<open>tokens\<close>, \<open>buf\<close> and \<open>quote\<close>; at the end of the line it pushes
  a non-empty \<open>buf\<close>.
\<close>

fun tokenize :: "string list \<Rightarrow> string \<Rightarrow> char option \<Rightarrow> string \<Rightarrow> string list" where
  "tokenize tokens buf quote [] = (if buf \<noteq> [] then tokens @ [buf] else tokens)"
| "tokenize tokens buf (Some q) (ch # rest) =
     (if ch = q then tokenize tokens buf None rest
      else tokenize tokens (buf @ [ch]) (Some q) rest)"
| "tokenize tokens buf None (ch # rest) =
     (if ch = CHR 0x22 \<or> ch = CHR 0x27 then tokenize tokens buf (Some ch) rest
      else if is_space ch then tokenize (if buf \<noteq> [] then tokens @ [buf] else tokens) [] None rest
      else tokenize tokens (buf @ [ch]) None rest)"

text \<open>
  One round of the attribute loop on token \<open>t\<close>, with the loop's variables \<open>attrs\<close>
  and \<open>classes\<close>.
\<close>

definition attr_token :: "string \<Rightarrow> obj \<times> string list \<Rightarrow> obj \<times> string list" where
  "attr_token t ac =
     (case ac of (attrs, classes) \<Rightarrow>
        if startsWith t ''.'' then
          (let c = trim (drop 1 t) in if c \<noteq> [] then (attrs, classes @ [c]) else (attrs, classes))
        else if startsWith t ''#'' then
          (let id = trim (drop 1 t) in
           if id \<noteq> [] then (obj_set ''id'' id attrs, classes) else (attrs, classes))
        else
          (let eq = indexOf t CHR ''='' in
           if eq > 0 then
             (let key = trim (take (nat eq) t); val = trim (drop (nat eq + 1) t) in
              if key = [] then (attrs, classes)
              else if key = ''class'' then
                (attrs, classes @ filter (\<lambda>c. c \<noteq> []) (split_seps [] val))
              else (obj_set key val attrs, classes))
           else (attrs, classes)))"

definition attr_loop :: "string list \<Rightarrow> obj \<times> string list \<Rightarrow> obj \<times> string list" where
  "attr_loop ts ac = foldl (\<lambda>ac t. attr_token t ac) ac ts"

text \<open>
  \<open>parseMarkerLine(line)\<close>: \<open>Inr None\<close> is the result \<open>null\<close>, \<open>Inl TypeError\<close> the
  exception that \<open>head.slice(1)\<close> raises when \<open>tokens[0]\<close> is \<open>undefined\<close>.
\<close>

definition kinds :: "string list" where
  "kinds = [''spread'', ''page'', ''section'', ''break'']"

definition parseMarkerLine :: "string \<Rightarrow> js_error + marker option" where
  "parseMarkerLine line =
     (let trimmed = trim line in
      if \<not> startsWith trimmed ''@'' then Inr None
      else
        (let tokens = tokenize [] [] None trimmed in
         case tokens of
           [] \<Rightarrow> Inl TypeError
         | head # _ \<Rightarrow>
             (let kind = drop 1 head in
              if kind \<notin> set kinds then Inr None
              else if kind = ''break'' then
                Inr (Some \<lparr>m_kind = Some kind, m_name = None, m_attrs = [], m_line = None\<rparr>)
              else
                (let idx = 1;
                     named = (idx < length tokens \<and> tokens ! idx \<noteq> [] \<and>
                              \<not> str_includes (tokens ! idx) CHR ''='' \<and>
                              \<not> startsWith (tokens ! idx) ''.'' \<and>
                              \<not> startsWith (tokens ! idx) ''#'');
                     name = (if named then Some (tokens ! idx) else None);
                     idx = (if named then idx + 1 else idx);
                     (attrs, classes) = attr_loop (drop idx tokens) ([], []);
                     attrs = (if classes \<noteq> [] then obj_set ''class'' (join '' '' classes) attrs
                              else attrs)
                 in Inr (Some \<lparr>m_kind = Some kind, m_name = name, m_attrs = attrs, m_line = None\<rparr>)))))"

section \<open>Tokens, diagnostics and the environment\<close>

text \<open>
  A markdown-it token, its fields prefixed with \<open>t_\<close>: \<open>type\<close>, \<open>tag\<close>, \<open>nesting\<close>,
  \<open>attrs\<close> (\<open>None\<close> is \<open>null\<close>), \<open>content\<close> and \<open>meta\<close>. The plugin reads and writes
  no other field. \<open>Token\<close> is the constructor \<open>new state.Token(type, tag, nesting)\<close>.
\<close>

record token =
  t_type :: string
  t_tag :: string
  t_nesting :: int
  t_attrs :: "(string \<times> string) list option"
  t_content :: string
  t_meta :: "marker option"

definition Token :: "string \<Rightarrow> string \<Rightarrow> int \<Rightarrow> token" where
  "Token ty tg n =
     \<lparr>t_type = ty, t_tag = tg, t_nesting = n, t_attrs = None, t_content = [], t_meta = None\<rparr>"

text \<open>
  \<open>token.attrSet(name, value)\<close> of markdown-it: replaces the first attribute of that
  name in place, appends the attribute otherwise.
\<close>

definition attrSet :: "string \<Rightarrow> string \<Rightarrow> token \<Rightarrow> token" where
  "attrSet nm v tok =
     tok\<lparr>t_attrs := Some (case t_attrs tok of None \<Rightarrow> [(nm, v)] | Some as \<Rightarrow> assoc_set nm v as)\<rparr>"

text \<open>A warning \<open>{ line, type, message, marker }\<close>, its fields prefixed with \<open>d_\<close>.\<close>

record diagnostic =
  d_line :: nat
  d_type :: string
  d_message :: string
  d_marker :: "marker option"

text \<open>
  The rendering environment \<open>env\<close>: \<open>layoutWarnings\<close> (\<open>None\<close> when the caller supplied
  none) and the flag \<open>__layoutMarkersUsed\<close>.
\<close>

record env =
  layoutWarnings :: "diagnostic list option"
  layoutMarkersUsed :: bool

record options =
  implicitPage :: bool
  preferPagesInSpreads :: bool
  warnOnBreakWithoutScope :: bool

text \<open>The defaults of \<open>plugin\<close>.\<close>

definition default_options :: options where
  "default_options =
     \<lparr>implicitPage = True, preferPagesInSpreads = False, warnOnBreakWithoutScope = True\<rparr>"

definition warn :: "env \<Rightarrow> nat \<Rightarrow> string \<Rightarrow> string \<Rightarrow> marker option \<Rightarrow> env" where
  "warn e line ty message marker =
     e\<lparr>layoutWarnings :=
         Some ((case layoutWarnings e of None \<Rightarrow> [] | Some ws \<Rightarrow> ws) @
               [\<lparr>d_line = line, d_type = ty, d_message = message, d_marker = marker\<rparr>])\<rparr>"

definition addClasses :: "token \<Rightarrow> string \<Rightarrow> string \<Rightarrow> token" where
  "addClasses tok baseClass extraClass =
     (let cls = (if baseClass \<noteq> [] then [baseClass] else []) @
                (if extraClass \<noteq> [] then [extraClass] else []);
          merged = trim (join '' '' cls)
      in if merged \<noteq> [] then attrSet ''class'' merged tok else tok)"

text \<open>\<open>if (attrs.k) token.attrSet(a, attrs.k)\<close>.\<close>

definition set_if_truthy :: "string \<Rightarrow> string option \<Rightarrow> token \<Rightarrow> token" where
  "set_if_truthy a v tok = (case v of None \<Rightarrow> tok | Some s \<Rightarrow> if s \<noteq> [] then attrSet a s tok else tok)"

definition attachDataAttrs :: "token \<Rightarrow> string \<Rightarrow> string option \<Rightarrow> obj \<Rightarrow> token" where
  "attachDataAttrs tok kind name attrs =
     (let tok = (case name of
                   None \<Rightarrow> tok
                 | Some n \<Rightarrow>
                     if n = [] then tok
                     else
                       (let tok = (if kind = ''spread'' then attrSet ''data-spread'' n tok else tok);
                            tok = (if kind = ''page'' then attrSet ''data-page'' n tok else tok);
                            tok = (if kind = ''section'' then attrSet ''data-section'' n tok else tok)
                        in tok));
          tok = set_if_truthy ''data-template'' (obj_get attrs ''template'') tok;
          tok = set_if_truthy ''data-region'' (obj_get attrs ''region'') tok;
          tok = set_if_truthy ''id'' (obj_get attrs ''id'') tok
      in foldl (\<lambda>tok (k, v).
                  if v = [] then tok
                  else if k = ''class'' \<or> k = ''id'' \<or> k = ''template'' \<or> k = ''region'' then tok
                  else attrSet (''data-'' @ k) v tok)
           tok (entries attrs))"

section \<open>The block rule\<close>

text \<open>The state of a markdown-it rule: the token stream and the environment.\<close>

record core_state =
  tokens :: "token list"
  env :: env

text \<open>
  \<open>markerBlock\<close> on the text \<open>line\<close> of line \<open>startLine\<close> (the slice of \<open>state.src\<close> that
  the host's line tables give); the result is the rule's boolean with the new state. \<open>marker_token\<close> is the token it
  pushes: \<open>state.push('layout_marker', '', 0)\<close> with \<open>meta\<close> the parsed marker and its
  1-based line.
\<close>

definition marker_token :: "marker \<Rightarrow> nat \<Rightarrow> token" where
  "marker_token parsed startLine =
     (Token ''layout_marker'' [] 0)\<lparr>t_meta := Some (parsed\<lparr>m_line := Some (startLine + 1)\<rparr>)\<rparr>"

definition markerBlock :: "string \<Rightarrow> nat \<Rightarrow> bool \<Rightarrow> core_state \<Rightarrow> js_error + bool \<times> core_state" where
  "markerBlock line startLine silent state =
     (case parseMarkerLine line of
        Inl err \<Rightarrow> Inl err
      | Inr None \<Rightarrow> Inr (False, state)
      | Inr (Some parsed) \<Rightarrow>
          if silent then Inr (True, state)
          else
            Inr (True,
              \<lparr>tokens = tokens state @ [marker_token parsed startLine],
               env = (env state)\<lparr>layoutMarkersUsed := True\<rparr>\<rparr>))"

section \<open>The scope transform engine\<close>

text \<open>
  The variables of one run of \<open>layout_transform\<close>: the output array, the three scope
  flags, the two flags of the current spread, and \<open>state.env\<close>.
\<close>

record scope =
  out :: "token list"
  spreadOpen :: bool
  pageOpen :: bool
  sectionOpen :: bool
  spreadStartedWithNoPagesYet :: bool
  sawAnyPageInsideCurrentSpread :: bool
  state_env :: env

definition msg_page_outside_spread :: string where
  "msg_page_outside_spread =
     ''@page used outside of a spread; allowed, but spreads are recommended for deliberate grouping.''"

definition msg_nested_spread :: string where
  "msg_nested_spread =
     ''@spread encountered while another spread is open; closing the previous spread automatically.''"

definition msg_implicit_page :: string where
  "msg_implicit_page =
     ''@section used without an open @page; creating an implicit page wrapper (data-page='' @
     [CHR 0x22] @ ''auto'' @ [CHR 0x22] @ '').''"

definition msg_section_without_page :: string where
  "msg_section_without_page =
     ''@section used without an open @page; region will render but will not be wrapped in a page.''"

definition msg_spread_without_pages :: string where
  "msg_spread_without_pages =
     ''@section inside a spread without an explicit @page. Allowed (adhoc spread), but explicit @page markers give stronger control.''"

definition msg_break_without_scope :: string where
  "msg_break_without_scope =
     ''@break used but no spread/page/section is open. It will still force a page break.''"

definition msg_spread_eof_close :: string where
  "msg_spread_eof_close =
     ''An open @spread reached end-of-document; closing it automatically. If this was meant to be adhoc, consider adding @break to return to default flow.''"

text \<open>The call \<open>warn(state.env, line, type, message, marker)\<close> inside the rule.\<close>

definition warning :: "nat \<Rightarrow> string \<Rightarrow> string \<Rightarrow> marker option \<Rightarrow> scope \<Rightarrow> scope" where
  "warning line ty message marker st =
     st\<lparr>state_env := warn (state_env st) line ty message marker\<rparr>"

definition closeSection :: "scope \<Rightarrow> scope" where
  "closeSection st =
     (if \<not> sectionOpen st then st
      else st\<lparr>out := out st @ [Token ''layout_section_close'' ''div'' (- 1)],
              sectionOpen := False\<rparr>)"

definition closePage :: "scope \<Rightarrow> scope" where
  "closePage st =
     (if \<not> pageOpen st then st
      else
        (let st = closeSection st
         in st\<lparr>out := out st @ [Token ''layout_page_close'' ''div'' (- 1)],
                pageOpen := False\<rparr>))"

definition closeSpread :: "scope \<Rightarrow> scope" where
  "closeSpread st =
     (if \<not> spreadOpen st then st
      else
        (let st = closePage st
         in st\<lparr>out := out st @ [Token ''layout_spread_close'' ''div'' (- 1)],
                spreadOpen := False,
                spreadStartedWithNoPagesYet := False,
                sawAnyPageInsideCurrentSpread := False\<rparr>))"

text \<open>\<open>meta.attrs && meta.attrs.class ? meta.attrs.class : ''\<close>.\<close>

definition class_or_empty :: "marker \<Rightarrow> string" where
  "class_or_empty meta = (case obj_get (m_attrs meta) ''class'' of None \<Rightarrow> [] | Some c \<Rightarrow> c)"

text \<open>\<open>meta.__line || 0\<close>.\<close>

definition line_or_0 :: "marker \<Rightarrow> nat" where
  "line_or_0 meta = (case m_line meta of None \<Rightarrow> 0 | Some n \<Rightarrow> n)"

definition openSpread :: "marker \<Rightarrow> scope \<Rightarrow> scope" where
  "openSpread meta st =
     (let t = Token ''layout_spread_open'' ''div'' 1;
          t = addClasses t ''spread'' (class_or_empty meta);
          t = attachDataAttrs t ''spread'' (m_name meta) (m_attrs meta)
      in st\<lparr>out := out st @ [t],
             spreadOpen := True,
             spreadStartedWithNoPagesYet := True,
             sawAnyPageInsideCurrentSpread := False\<rparr>)"

definition openPage :: "options \<Rightarrow> marker \<Rightarrow> scope \<Rightarrow> scope" where
  "openPage opts meta st =
     (let t = Token ''layout_page_open'' ''div'' 1;
          t = addClasses t ''page'' (class_or_empty meta);
          t = attachDataAttrs t ''page'' (m_name meta) (m_attrs meta);
          st = st\<lparr>out := out st @ [t], pageOpen := True\<rparr>
      in if spreadOpen st then
           st\<lparr>sawAnyPageInsideCurrentSpread := True, spreadStartedWithNoPagesYet := False\<rparr>
         else if preferPagesInSpreads opts then
           warning (line_or_0 meta) ''page_outside_spread'' msg_page_outside_spread (Some meta) st
         else st)"

definition openSection :: "marker \<Rightarrow> scope \<Rightarrow> scope" where
  "openSection meta st =
     (let t = Token ''layout_section_open'' ''div'' 1;
          t = addClasses t ''region'' (class_or_empty meta);
          t = attachDataAttrs t ''section'' (m_name meta) (m_attrs meta)
      in st\<lparr>out := out st @ [t], sectionOpen := True\<rparr>)"

text \<open>The break node.\<close>

definition break_token :: token where
  "break_token =
     attrSet ''aria-hidden'' ''true'' (attrSet ''class'' ''md-break'' (Token ''layout_break'' ''div'' 0))"

text \<open>
  The four branches of the loop body, for a marker \<open>meta\<close> with \<open>line = meta.__line || 0\<close>.
\<close>

definition spread_branch :: "marker \<Rightarrow> nat \<Rightarrow> scope \<Rightarrow> scope" where
  "spread_branch meta line st =
     (let st = (if spreadOpen st then
                  warning line ''nested_spread'' msg_nested_spread (Some meta) st
                else st);
          st = closeSpread st
      in openSpread meta st)"

definition page_branch :: "options \<Rightarrow> marker \<Rightarrow> scope \<Rightarrow> scope" where
  "page_branch opts meta st = (let st = closePage st in openPage opts meta st)"

definition section_branch :: "options \<Rightarrow> marker \<Rightarrow> nat \<Rightarrow> scope \<Rightarrow> scope" where
  "section_branch opts meta line st =
     (let st = closeSection st;
          st = (if \<not> pageOpen st then
                  (if implicitPage opts then
                     (let st = warning line ''implicit_page'' msg_implicit_page (Some meta) st
                      in openPage opts
                           \<lparr>m_kind = None, m_name = Some ''auto'', m_attrs = [],
                              m_line = Some line\<rparr> st)
                   else
                     warning line ''section_without_page'' msg_section_without_page (Some meta) st)
                else st);
          st = (if spreadOpen st \<and> spreadStartedWithNoPagesYet st then
                  warning line ''spread_without_pages'' msg_spread_without_pages (Some meta) st
                else st)
      in openSection meta st)"

definition break_branch :: "options \<Rightarrow> marker \<Rightarrow> nat \<Rightarrow> scope \<Rightarrow> scope" where
  "break_branch opts meta line st =
     (let st = (if \<not> sectionOpen st \<and> \<not> pageOpen st \<and> \<not> spreadOpen st \<and>
                   warnOnBreakWithoutScope opts then
                  warning line ''break_without_scope'' msg_break_without_scope (Some meta) st
                else st);
          st = (if sectionOpen st then closeSection st
                else if pageOpen st then closePage st
                else if spreadOpen st then closeSpread st
                else st)
      in st\<lparr>out := out st @ [break_token]\<rparr>)"

text \<open>
  One round of the loop over \<open>state.tokens\<close>. A marker token whose \<open>meta\<close> is missing
  (\<open>tok.meta || {}\<close>) or whose kind is none of the four is dropped.
\<close>

definition step :: "options \<Rightarrow> token \<Rightarrow> scope \<Rightarrow> scope" where
  "step opts tok st =
     (if t_type tok \<noteq> ''layout_marker'' then st\<lparr>out := out st @ [tok]\<rparr>
      else
        (let meta = (case t_meta tok of
                       None \<Rightarrow> \<lparr>m_kind = None, m_name = None, m_attrs = [], m_line = None\<rparr>
                     | Some m \<Rightarrow> m);
             kind = m_kind meta;
             line = line_or_0 meta
         in if kind = Some ''spread'' then spread_branch meta line st
            else if kind = Some ''page'' then page_branch opts meta st
            else if kind = Some ''section'' then section_branch opts meta line st
            else if kind = Some ''break'' then break_branch opts meta line st
            else st))"

text \<open>The loop \<open>for (let i = 0; i < state.tokens.length; i++)\<close>.\<close>

fun run :: "options \<Rightarrow> token list \<Rightarrow> scope \<Rightarrow> scope" where
  "run opts [] st = st"
| "run opts (tok # toks) st = run opts toks (step opts tok st)"

definition initial_scope :: "env \<Rightarrow> scope" where
  "initial_scope e =
     \<lparr>out = [], spreadOpen = False, pageOpen = False, sectionOpen = False,
      spreadStartedWithNoPagesYet = False, sawAnyPageInsideCurrentSpread = False,
      state_env = e\<rparr>"

text \<open>What follows the loop: the end-of-document warning and the closing of the spread.\<close>

definition finish :: "scope \<Rightarrow> scope" where
  "finish st =
     (let st = (if spreadOpen st \<and> \<not> sawAnyPageInsideCurrentSpread st then
                  warning 0 ''spread_eof_close'' msg_spread_eof_close None st
                else st)
      in closeSpread st)"

text \<open>The core rule \<open>layout_transform\<close>.\<close>

definition layout_transform :: "options \<Rightarrow> core_state \<Rightarrow> core_state" where
  "layout_transform opts state =
     (if \<not> layoutMarkersUsed (env state) then state
      else
        (let st = finish (run opts (tokens state) (initial_scope (env state)))
         in \<lparr>tokens = out st, env = state_env st\<rparr>))"

section \<open>Notions used to state the properties\<close>

text \<open>A character that neither separates tokens nor opens a quoted span.\<close>

definition plain :: "char \<Rightarrow> bool" where
  "plain c = (\<not> is_space c \<and> c \<noteq> CHR 0x22 \<and> c \<noteq> CHR 0x27)"

text \<open>
  The id that one attribute token sets, if any: the suffix of a \<open>#\<close> token, or the value
  of a \<open>key=value\<close> token whose key is \<open>id\<close>. A token that starts with \<open>.\<close> is a class.
\<close>

definition id_of_token :: "string \<Rightarrow> string option" where
  "id_of_token t =
     (if startsWith t ''.'' then None
      else if startsWith t ''#'' then
        (if trim (drop 1 t) \<noteq> [] then Some (trim (drop 1 t)) else None)
      else if indexOf t CHR ''='' > 0 \<and> trim (take (nat (indexOf t CHR ''='')) t) = ''id''
        then Some (trim (drop (nat (indexOf t CHR ''='') + 1) t))
      else None)"

text \<open>The diagnostics an environment holds; none when it has no collection.\<close>

definition recorded :: "env \<Rightarrow> diagnostic list" where
  "recorded e = (case layoutWarnings e of None \<Rightarrow> [] | Some ws \<Rightarrow> ws)"

text \<open>
  The environment after the diagnostics \<open>ds\<close> were recorded one by one: unchanged when
  there are none, otherwise with \<open>ds\<close> appended to the collection, which is created when
  it was absent.
\<close>

definition add_warnings :: "diagnostic list \<Rightarrow> env \<Rightarrow> env" where
  "add_warnings ds e = (if ds = [] then e else e\<lparr>layoutWarnings := Some (recorded e @ ds)\<rparr>)"

text \<open>An environment with a caller-supplied empty collection, after a marker was seen.\<close>

definition empty_collection :: env where
  "empty_collection = \<lparr>layoutWarnings = Some [], layoutMarkersUsed = True\<rparr>"

text \<open>The diagnostics of a run, read off a run that starts with the empty collection.\<close>

definition emitted :: "options \<Rightarrow> token list \<Rightarrow> diagnostic list" where
  "emitted opts toks =
     recorded (env (layout_transform opts \<lparr>tokens = toks, env = empty_collection\<rparr>))"

text \<open>
  The state of a run that started in environment \<open>e\<close>, from the corresponding state of
  the run that started with the empty collection.
\<close>

definition rebase :: "env \<Rightarrow> scope \<Rightarrow> scope" where
  "rebase e st = st\<lparr>state_env := add_warnings (recorded (state_env st)) e\<rparr>"

text \<open>An environment without a collection, after a marker was seen.\<close>

definition no_collection :: env where
  "no_collection = \<lparr>layoutWarnings = None, layoutMarkersUsed = True\<rparr>"

text \<open>
  Example inputs and expected outputs: the marker token for \<open>@k n\<close> on line
  \<open>startLine\<close> (0-based; no name when \<open>n\<close> is empty), the three tokens of a
  paragraph, an open wrapper with its attributes, a close wrapper, and a document of two
  \<open>@spread\<close> lines.
\<close>

definition mark :: "string \<Rightarrow> string \<Rightarrow> nat \<Rightarrow> token" where
  "mark k n startLine =
     marker_token \<lparr>m_kind = Some k, m_name = (if n = [] then None else Some n), m_attrs = [],
                    m_line = None\<rparr> startLine"

definition para_tokens :: "string \<Rightarrow> token list" where
  "para_tokens s =
     [Token ''paragraph_open'' ''p'' 1, (Token ''inline'' [] 0)\<lparr>t_content := s\<rparr>,
      Token ''paragraph_close'' ''p'' (- 1)]"

definition opened :: "string \<Rightarrow> (string \<times> string) list \<Rightarrow> token" where
  "opened ty as = (Token ty ''div'' 1)\<lparr>t_attrs := Some as\<rparr>"

definition closed :: "string \<Rightarrow> token" where
  "closed ty = Token ty ''div'' (- 1)"

definition two_spreads :: "token list" where
  "two_spreads =
     [marker_token \<lparr>m_kind = Some ''spread'', m_name = Some ''s'', m_attrs = [], m_line = None\<rparr> 0,
      marker_token \<lparr>m_kind = Some ''spread'', m_name = Some ''t'', m_attrs = [], m_line = None\<rparr> 1]"

text \<open>Scenario D of the specification: three scopes opened, then three breaks.\<close>

definition scenario_d :: "token list" where
  "scenario_d =
     [mark ''spread'' ''s'' 0, mark ''page'' ''p'' 1, mark ''section'' ''a'' 2,
      mark ''break'' [] 3, mark ''break'' [] 4, mark ''break'' [] 5]"

section \<open>Properties of the marker line parser\<close>

lemma tokenize_extends: "\<exists>ts. tokenize tks buf q s = tks @ ts"
proof (induction s arbitrary: tks buf q)
  case Nil
  then show ?case by simp
next
  case (Cons ch s)
  show ?case
  proof (cases q)
    case None
    show ?thesis
    proof (cases "buf \<noteq> [] \<and> is_space ch \<and> \<not> (ch = CHR 0x22 \<or> ch = CHR 0x27)")
      case True
      obtain ts where "tokenize (tks @ [buf]) [] None s = (tks @ [buf]) @ ts"
        using Cons.IH by blast
      then show ?thesis using True None by simp
    next
      case False
      then show ?thesis using None Cons.IH by auto
    qed
  next
    case (Some a)
    then show ?thesis using Cons.IH by simp
  qed
qed

lemma tokenize_buf_head:
  "buf \<noteq> [] \<Longrightarrow> \<exists>w ts. tokenize [] buf q s = (buf @ w) # ts"
proof (induction s arbitrary: buf q)
  case Nil
  then show ?case by simp
next
  case (Cons ch s)
  show ?case
  proof (cases q)
    case None
    show ?thesis
    proof (cases "ch = CHR 0x22 \<or> ch = CHR 0x27")
      case True
      then show ?thesis using None Cons.IH [OF Cons.prems] by simp
    next
      case notq: False
      show ?thesis
      proof (cases "is_space ch")
        case True
        obtain ts where "tokenize ([] @ [buf]) [] None s = ([] @ [buf]) @ ts"
          using tokenize_extends by blast
        then show ?thesis using True notq None Cons.prems by simp
      next
        case False
        have "buf @ [ch] \<noteq> []" by simp
        from Cons.IH [OF this, of None] obtain w ts
          where "tokenize [] (buf @ [ch]) None s = ((buf @ [ch]) @ w) # ts" by blast
        then have "tokenize [] (buf @ [ch]) None s = (buf @ (ch # w)) # ts" by simp
        then show ?thesis using False notq None by auto
      qed
    qed
  next
    case (Some a)
    show ?thesis
    proof (cases "ch = a")
      case True
      then show ?thesis using Some Cons.IH [OF Cons.prems] by simp
    next
      case False
      have "buf @ [ch] \<noteq> []" by simp
      from Cons.IH [OF this, of "Some a"] obtain w ts
        where "tokenize [] (buf @ [ch]) (Some a) s = ((buf @ [ch]) @ w) # ts" by blast
      then have "tokenize [] (buf @ [ch]) (Some a) s = (buf @ (ch # w)) # ts" by simp
      then show ?thesis using False Some by auto
    qed
  qed
qed

lemma at_plain: "\<not> is_space CHR ''@''" "CHR ''@'' \<noteq> CHR 0x22" "CHR ''@'' \<noteq> CHR 0x27"
  by (simp_all add: is_space_def)

lemma tokenize_at_line:
  assumes "startsWith s ''@''"
  shows "\<exists>w ts. tokenize [] [] None s = (CHR ''@'' # w) # ts"
proof -
  from assms obtain r where s: "s = CHR ''@'' # r"
    by (cases s) (auto simp: startsWith_def)
  have "tokenize [] [] None s = tokenize [] ''@'' None r"
    using at_plain by (simp add: s)
  moreover obtain w ts where "tokenize [] ''@'' None r = (''@'' @ w) # ts"
    using tokenize_buf_head [of "''@''"] by blast
  ultimately show ?thesis by simp
qed

lemma parse_total: "\<exists>r. parseMarkerLine line = Inr r"
proof (cases "startsWith (trim line) ''@''")
  case False
  then show ?thesis by (simp add: parseMarkerLine_def)
next
  case True
  then obtain w ts where "tokenize [] [] None (trim line) = (CHR ''@'' # w) # ts"
    using tokenize_at_line by blast
  then show ?thesis
    by (simp add: parseMarkerLine_def Let_def split: prod.splits)
qed


lemma tokenize_plain:
  "list_all plain w \<Longrightarrow> tokenize tks buf None (w @ rest) = tokenize tks (buf @ w) None rest"
  by (induction w arbitrary: buf) (auto simp: plain_def)

lemma tokenize_in_quote:
  "q \<notin> set body \<Longrightarrow>
   tokenize tks buf (Some q) (body @ q # post) = tokenize tks (buf @ body) None post"
  by (induction body arbitrary: buf) auto

lemma tokenize_open_quote:
  "q \<notin> set body \<Longrightarrow>
   tokenize tks buf (Some q) body = (if buf @ body \<noteq> [] then tks @ [buf @ body] else tks)"
  by (induction body arbitrary: buf) auto

lemma parse_not_at: "\<not> startsWith (trim line) ''@'' \<Longrightarrow> parseMarkerLine line = Inr None"
  by (simp add: parseMarkerLine_def)

lemma parse_unknown_head:
  "tokenize [] [] None (trim line) = head # ts \<Longrightarrow> drop 1 head \<notin> set kinds \<Longrightarrow>
   parseMarkerLine line = Inr None"
  by (simp add: parseMarkerLine_def Let_def)

lemma tokenize_first_word:
  assumes "list_all plain w" and "rest = [] \<or> is_space (hd rest)"
  shows "\<exists>ts. tokenize [] [] None (CHR ''@'' # w @ rest) = (CHR ''@'' # w) # ts"
proof -
  have pl: "list_all plain (CHR ''@'' # w)"
    using assms(1) by (simp add: plain_def is_space_def)
  have eq: "tokenize [] [] None (CHR ''@'' # w @ rest) = tokenize [] (CHR ''@'' # w) None rest"
    using tokenize_plain [OF pl, of "[]" "[]" rest] by simp
  show ?thesis
  proof (cases rest)
    case Nil
    then show ?thesis using eq by simp
  next
    case (Cons c r)
    then have sp: "is_space c" using assms(2) by simp
    then have nq: "\<not> (c = CHR 0x22 \<or> c = CHR 0x27)" by (auto simp: is_space_def)
    obtain ts where "tokenize ([] @ [CHR ''@'' # w]) [] None r = ([] @ [CHR ''@'' # w]) @ ts"
      using tokenize_extends by blast
    then show ?thesis using eq Cons sp nq by simp
  qed
qed

lemma markerBlock_declines:
  "parseMarkerLine line = Inr None \<Longrightarrow> markerBlock line startLine silent state = Inr (False, state)"
  by (simp add: markerBlock_def)

text \<open>
  Claim C6. A line whose trimmed text does not start with \<open>@\<close> is not a marker, and
  neither is a line that starts with \<open>@\<close> when its first word is none of \<open>spread\<close>,
  \<open>page\<close>, \<open>section\<close>, \<open>break\<close>: the parser returns \<open>null\<close>, and the block rule
  declines the line with the state unchanged (no token, no diagnostic, no flag). The first
  word is stated twice: as the first token the tokenizer yields, and as the run \<open>w\<close> of
  plain characters that follows the \<open>@\<close> up to the first white space or the end of the line.
\<close>

theorem parseMarkerLine_rejects:
  "(\<not> startsWith (trim line) ''@'' \<longrightarrow>
      parseMarkerLine line = Inr None \<and>
      markerBlock line startLine silent state = Inr (False, state)) \<and>
   (\<forall>head ts. tokenize [] [] None (trim line) = head # ts \<and> drop 1 head \<notin> set kinds \<longrightarrow>
      parseMarkerLine line = Inr None \<and>
      markerBlock line startLine silent state = Inr (False, state)) \<and>
   (\<forall>w rest. trim line = CHR ''@'' # w @ rest \<and> list_all plain w \<and>
        (rest = [] \<or> is_space (hd rest)) \<and> w \<notin> set kinds \<longrightarrow>
      parseMarkerLine line = Inr None \<and>
      markerBlock line startLine silent state = Inr (False, state))"
proof (intro conjI allI impI)
  assume "\<not> startsWith (trim line) ''@''"
  then show a: "parseMarkerLine line = Inr None" by (rule parse_not_at)
  then show "markerBlock line startLine silent state = Inr (False, state)"
    by (rule markerBlock_declines)
next
  fix head ts
  assume "tokenize [] [] None (trim line) = head # ts \<and> drop 1 head \<notin> set kinds"
  then show a: "parseMarkerLine line = Inr None" using parse_unknown_head by blast
  then show "markerBlock line startLine silent state = Inr (False, state)"
    by (rule markerBlock_declines)
next
  fix w rest
  assume h: "trim line = CHR ''@'' # w @ rest \<and> list_all plain w \<and>
        (rest = [] \<or> is_space (hd rest)) \<and> w \<notin> set kinds"
  then obtain ts where "tokenize [] [] None (trim line) = (CHR ''@'' # w) # ts"
    using tokenize_first_word [of w rest] by auto
  moreover have "drop 1 (CHR ''@'' # w) \<notin> set kinds" using h by simp
  ultimately show a: "parseMarkerLine line = Inr None" using parse_unknown_head by blast
  then show "markerBlock line startLine silent state = Inr (False, state)"
    by (rule markerBlock_declines)
qed

text \<open>Witness for C6: the lines \<open> @foo bar\<close> and \<open># Title\<close>.\<close>

theorem parseMarkerLine_rejects_witness:
  "trim '' @foo bar'' = CHR ''@'' # ''foo'' @ '' bar'' \<and> list_all plain ''foo'' \<and>
   is_space (hd '' bar'') \<and> ''foo'' \<notin> set kinds \<and>
   parseMarkerLine '' @foo bar'' = Inr None \<and>
   \<not> startsWith (trim ''# Title'') ''@'' \<and> parseMarkerLine ''# Title'' = Inr None"
proof -
  have a: "trim '' @foo bar'' = CHR ''@'' # ''foo'' @ '' bar''"
    by (simp add: trim_def is_space_def)
  have b: "list_all plain ''foo''" by (simp add: plain_def is_space_def)
  have c: "is_space (hd '' bar'')" by (simp add: is_space_def)
  have d: "''foo'' \<notin> set kinds" by (simp add: kinds_def)
  have e: "\<not> startsWith (trim ''# Title'') ''@''"
    by (simp add: trim_def is_space_def startsWith_def)
  have "parseMarkerLine '' @foo bar'' = Inr None"
    using parseMarkerLine_rejects [of "'' @foo bar''" 0 False "\<lparr>tokens = [], env = \<lparr>layoutWarnings = None, layoutMarkersUsed = False\<rparr>\<rparr>"] a b c d by blast
  moreover have "parseMarkerLine ''# Title'' = Inr None"
    using parseMarkerLine_rejects [of "''# Title''" 0 False "\<lparr>tokens = [], env = \<lparr>layoutWarnings = None, layoutMarkersUsed = False\<rparr>\<rparr>"] e by blast
  ultimately show ?thesis using a b c d e by blast
qed

lemma parse_wellformed:
  assumes p: "parseMarkerLine line = Inr (Some m)"
  shows "(\<exists>k. m_kind m = Some k \<and> k \<in> set kinds) \<and> m_name m \<noteq> Some [] \<and> m_line m = None \<and>
      (m_kind m = Some ''break'' \<longrightarrow> m_name m = None \<and> m_attrs m = [])"
proof -
  from p have at: "startsWith (trim line) ''@''"
    using parse_not_at by fastforce
  then obtain w ts where tk: "tokenize [] [] None (trim line) = (CHR ''@'' # w) # ts"
    using tokenize_at_line by blast
  have wk: "w \<in> set kinds"
    using p at tk by (auto simp: parseMarkerLine_def Let_def split: if_splits)
  show ?thesis
    using p at tk wk by (auto simp: parseMarkerLine_def Let_def split: if_splits prod.splits)
qed

text \<open>
  Claim C10. The parser is total: on every line it returns \<open>null\<close> or a marker and never
  raises. Whenever the trimmed line starts with \<open>@\<close> the token list is not empty, so
  \<open>tokens[0]\<close> is defined; a marker that is returned has one of the four kinds, a name
  that is \<open>null\<close> or a non-empty string, and for \<open>break\<close> no name and no attributes.
\<close>

theorem parseMarkerLine_total:
  "(\<exists>r. parseMarkerLine line = Inr r) \<and>
   (startsWith (trim line) ''@'' \<longrightarrow> tokenize [] [] None (trim line) \<noteq> []) \<and>
   (\<forall>m. parseMarkerLine line = Inr (Some m) \<longrightarrow>
      (\<exists>k. m_kind m = Some k \<and> k \<in> set kinds) \<and> m_name m \<noteq> Some [] \<and> m_line m = None \<and>
      (m_kind m = Some ''break'' \<longrightarrow> m_name m = None \<and> m_attrs m = []))"
proof -
  have a: "\<exists>r. parseMarkerLine line = Inr r" by (rule parse_total)
  have b: "startsWith (trim line) ''@'' \<longrightarrow> tokenize [] [] None (trim line) \<noteq> []"
    using tokenize_at_line by fastforce
  show ?thesis using a b parse_wellformed by blast
qed

text \<open>
  Witness for C10: a line with an unterminated quote, the lone \<open>@\<close> and the empty line.
\<close>

theorem parseMarkerLine_total_witness:
  "startsWith (trim (''@page '' @ [CHR 0x22] @ ''open'')) ''@'' \<and>
   tokenize [] [] None (trim (''@page '' @ [CHR 0x22] @ ''open'')) \<noteq> [] \<and>
   (\<exists>r. parseMarkerLine (''@page '' @ [CHR 0x22] @ ''open'') = Inr r) \<and>
   (\<exists>r. parseMarkerLine ''@'' = Inr r) \<and> (\<exists>r. parseMarkerLine [] = Inr r)"
proof -
  have "startsWith (trim (''@page '' @ [CHR 0x22] @ ''open'')) ''@''"
    by (simp add: trim_def is_space_def startsWith_def)
  then show ?thesis
    using parseMarkerLine_total [of "''@page '' @ [CHR 0x22] @ ''open''"]
      parseMarkerLine_total [of "''@''"] parseMarkerLine_total [of "[]"]
    by blast
qed

lemma map_of_assoc_set: "map_of (assoc_set k v ob) = (map_of ob)(k \<mapsto> v)"
  by (induction ob) auto

lemma obj_get_obj_set:
  "obj_get (obj_set k v ob) k' =
     (if k = ''__proto__'' then obj_get ob k' else if k' = k then Some v else obj_get ob k')"
  by (simp add: obj_get_def obj_set_def map_of_assoc_set)

lemma attr_token_id:
  "obj_get (fst (attr_token t ac)) ''id'' =
     (case id_of_token t of None \<Rightarrow> obj_get (fst ac) ''id'' | Some v \<Rightarrow> Some v)"
  by (cases ac) (auto simp: attr_token_def id_of_token_def Let_def obj_get_obj_set)

lemma attr_loop_Cons: "attr_loop (t # ts) ac = attr_loop ts (attr_token t ac)"
  by (simp add: attr_loop_def)

lemma attr_loop_append: "attr_loop (ts @ us) ac = attr_loop us (attr_loop ts ac)"
  by (simp add: attr_loop_def)

lemma attr_loop_id_kept:
  "\<forall>u\<in>set ts. id_of_token u = None \<Longrightarrow>
   obj_get (fst (attr_loop ts ac)) ''id'' = obj_get (fst ac) ''id''"
  by (induction ts arbitrary: ac) (simp_all add: attr_loop_def attr_token_id)

lemma attr_loop_id_last:
  assumes "id_of_token t = Some v" and "\<forall>u\<in>set post. id_of_token u = None"
  shows "obj_get (fst (attr_loop (pre @ t # post) ac)) ''id'' = Some v"
proof -
  have "attr_loop (pre @ t # post) ac = attr_loop post (attr_token t (attr_loop pre ac))"
    by (simp add: attr_loop_append attr_loop_Cons)
  then show ?thesis
    using assms by (simp add: attr_loop_id_kept attr_token_id)
qed

lemma id_of_key_value: "id_of_token (''id='' @ v) = Some (trim v)"
  by (simp add: id_of_token_def startsWith_def indexOf_def trim_def is_space_def)

lemma id_of_hash: "id_of_token (CHR ''#'' # s) = (if trim s = [] then None else Some (trim s))"
  by (simp add: id_of_token_def startsWith_def)

lemmas parse_eval = parseMarkerLine_def trim_def is_space_def startsWith_def kinds_def
  str_includes_def attr_loop_def attr_token_def indexOf_def obj_set_def is_sep_def Let_def

lemmas tok_eval = Token_def attrSet_def addClasses_def attachDataAttrs_def set_if_truthy_def
  obj_get_def entries_def is_array_index_def trim_def is_space_def class_or_empty_def

text \<open>
  Claim C3, as stated, fails: the line \<open>@page id=x\<close> gives the marker the id \<open>x\<close>, and
  the page wrapper opened for it carries \<open>id="x"\<close>.
\<close>

theorem id_key_sets_id_counterexample:
  "parseMarkerLine ''@page id=x'' =
     Inr (Some \<lparr>m_kind = Some ''page'', m_name = None, m_attrs = [(''id'', ''x'')],
                m_line = None\<rparr>) \<and>
   t_attrs (attachDataAttrs (addClasses (Token ''layout_page_open'' ''div'' 1) ''page'' [])
              ''page'' None [(''id'', ''x'')]) =
     Some [(''class'', ''page''), (''id'', ''x'')]"
proof -
  have a: "parseMarkerLine ''@page id=x'' =
     Inr (Some \<lparr>m_kind = Some ''page'', m_name = None, m_attrs = [(''id'', ''x'')],
                m_line = None\<rparr>)"
    by (simp add: parse_eval)
  have b: "t_attrs (attachDataAttrs (addClasses (Token ''layout_page_open'' ''div'' 1) ''page'' [])
              ''page'' None [(''id'', ''x'')]) =
     Some [(''class'', ''page''), (''id'', ''x'')]"
    by (simp add: tok_eval)
  show ?thesis using a b by (rule conjI)
qed

text \<open>
  Claim C3, amended. In the attribute loop a \<open>key=value\<close> token whose key is \<open>id\<close> sets
  the marker's id to its value, just as a \<open>#\<close> token with a non-empty suffix sets it to
  the suffix (\<open>id_of_token\<close>); the last token of either form wins, and the other tokens
  leave the id as it is. For the line \<open>@page class=foo .bar id=x #y\<close> the class attribute
  is \<open>foo bar\<close> and the id is \<open>y\<close>, the later \<open>#y\<close> overriding \<open>id=x\<close>; for
  \<open>@page #y id=x\<close> the id is \<open>x\<close>.
\<close>

theorem last_id_token_wins:
  "(id_of_token t = Some v \<and> (\<forall>u\<in>set post. id_of_token u = None) \<longrightarrow>
      obj_get (fst (attr_loop (pre @ t # post) ac)) ''id'' = Some v) \<and>
   ((\<forall>u\<in>set ts. id_of_token u = None) \<longrightarrow>
      obj_get (fst (attr_loop ts ac)) ''id'' = obj_get (fst ac) ''id'') \<and>
   id_of_token (''id='' @ w) = Some (trim w) \<and>
   id_of_token (CHR ''#'' # s) = (if trim s = [] then None else Some (trim s)) \<and>
   parseMarkerLine ''@page class=foo .bar id=x #y'' =
     Inr (Some \<lparr>m_kind = Some ''page'', m_name = None,
                m_attrs = [(''id'', ''y''), (''class'', ''foo bar'')], m_line = None\<rparr>) \<and>
   parseMarkerLine ''@page #y id=x'' =
     Inr (Some \<lparr>m_kind = Some ''page'', m_name = None, m_attrs = [(''id'', ''x'')],
                m_line = None\<rparr>)"
proof -
  have a: "parseMarkerLine ''@page class=foo .bar id=x #y'' =
     Inr (Some \<lparr>m_kind = Some ''page'', m_name = None,
                m_attrs = [(''id'', ''y''), (''class'', ''foo bar'')], m_line = None\<rparr>)"
    by (simp add: parse_eval)
  have b: "parseMarkerLine ''@page #y id=x'' =
     Inr (Some \<lparr>m_kind = Some ''page'', m_name = None, m_attrs = [(''id'', ''x'')],
                m_line = None\<rparr>)"
    by (simp add: parse_eval)
  show ?thesis
    using a b attr_loop_id_last attr_loop_id_kept id_of_key_value id_of_hash by blast
qed

text \<open>
  Witness for the amended C3: the attribute tokens \<open>#y id=x .bar\<close>, where \<open>id=x\<close> is the
  last token that sets the id.
\<close>

theorem last_id_token_wins_witness:
  "id_of_token ''id=x'' = Some ''x'' \<and> id_of_token ''.bar'' = None \<and>
   obj_get (fst (attr_loop ([''#y''] @ ''id=x'' # [''.bar'']) ([], []))) ''id'' = Some ''x''"
proof -
  have a: "id_of_token ''id=x'' = Some ''x''"
    by (simp add: id_of_token_def startsWith_def indexOf_def trim_def is_space_def)
  have b: "id_of_token ''.bar'' = None"
    by (simp add: id_of_token_def startsWith_def)
  then have c: "\<forall>u\<in>set [''.bar'']. id_of_token u = None" by simp
  show ?thesis
    using last_id_token_wins [of "''id=x''" "''x''" "[''.bar'']" "[''#y'']" "([], [])"] a b c
    by blast
qed

text \<open>
  Claim C7. The tokenizer keeps a span between two equal quote characters, \<open>"\<close> or \<open>'\<close>,
  inside the current token and drops the two quotes, whatever the span holds (white
  space, the other quote character, a backslash): the first occurrence of the same quote
  character ends the span. Outside a span a white space character ends the token. The
  line \<open>@page title="a b"\<close> gives a page marker whose only attribute is \<open>title\<close> with
  the value \<open>a b\<close>, and in \<open>"a\" b\<close> the quote after the backslash ends the span.
\<close>

theorem tokenize_quoted_span:
  "((q = CHR 0x22 \<or> q = CHR 0x27) \<and> q \<notin> set body \<longrightarrow>
      tokenize tks buf None (q # body @ q # post) = tokenize tks (buf @ body) None post) \<and>
   (list_all plain w \<and> is_space sp \<longrightarrow>
      tokenize tks buf None (w @ sp # post) =
        tokenize (if buf @ w \<noteq> [] then tks @ [buf @ w] else tks) [] None post) \<and>
   parseMarkerLine (''@page title='' @ [CHR 0x22] @ ''a b'' @ [CHR 0x22]) =
     Inr (Some \<lparr>m_kind = Some ''page'', m_name = None, m_attrs = [(''title'', ''a b'')],
                m_line = None\<rparr>) \<and>
   tokenize [] [] None ([CHR 0x22] @ ''a'' @ [CHR 0x5C, CHR 0x22] @ '' b'') =
     [''a'' @ [CHR 0x5C], ''b'']"
proof -
  have a: "(q = CHR 0x22 \<or> q = CHR 0x27) \<and> q \<notin> set body \<longrightarrow>
      tokenize tks buf None (q # body @ q # post) = tokenize tks (buf @ body) None post"
    using tokenize_in_quote [of q body tks buf post] by auto
  have b: "list_all plain w \<and> is_space sp \<longrightarrow>
      tokenize tks buf None (w @ sp # post) =
        tokenize (if buf @ w \<noteq> [] then tks @ [buf @ w] else tks) [] None post"
  proof
    assume h: "list_all plain w \<and> is_space sp"
    then have "sp \<noteq> CHR 0x22 \<and> sp \<noteq> CHR 0x27" by (auto simp: is_space_def)
    then show "tokenize tks buf None (w @ sp # post) =
        tokenize (if buf @ w \<noteq> [] then tks @ [buf @ w] else tks) [] None post"
      using h tokenize_plain [of w tks buf "sp # post"] by simp
  qed
  have c: "parseMarkerLine (''@page title='' @ [CHR 0x22] @ ''a b'' @ [CHR 0x22]) =
     Inr (Some \<lparr>m_kind = Some ''page'', m_name = None, m_attrs = [(''title'', ''a b'')],
                m_line = None\<rparr>)"
    by (simp add: parse_eval)
  have d: "tokenize [] [] None ([CHR 0x22] @ ''a'' @ [CHR 0x5C, CHR 0x22] @ '' b'') =
     [''a'' @ [CHR 0x5C], ''b'']"
    by (simp add: is_space_def)
  show ?thesis using a b c d by blast
qed

text \<open>
  Witness for C7: the double-quoted span \<open>a 'b\<close> after the buffer \<open>title=\<close>, and the
  plain word \<open>@page\<close> before a space.
\<close>

theorem tokenize_quoted_span_witness:
  "CHR 0x22 \<notin> set (''a '' @ [CHR 0x27] @ ''b'') \<and>
   tokenize [''@page''] ''title='' None (CHR 0x22 # (''a '' @ [CHR 0x27] @ ''b'') @ CHR 0x22 # []) =
     [''@page'', ''title=a '' @ [CHR 0x27] @ ''b''] \<and>
   list_all plain ''@page'' \<and> is_space CHR '' '' \<and>
   tokenize [] [] None (''@page'' @ CHR '' '' # ''x'') = [''@page'', ''x'']"
proof -
  have a: "CHR 0x22 \<notin> set (''a '' @ [CHR 0x27] @ ''b'')" by simp
  have b: "list_all plain ''@page''" by (simp add: plain_def is_space_def)
  have c: "is_space CHR '' ''" by (simp add: is_space_def)
  have d: "tokenize [''@page''] ''title='' None
             (CHR 0x22 # (''a '' @ [CHR 0x27] @ ''b'') @ CHR 0x22 # []) =
           tokenize [''@page''] (''title='' @ (''a '' @ [CHR 0x27] @ ''b'')) None []"
    using tokenize_quoted_span [of "CHR 0x22" "''a '' @ [CHR 0x27] @ ''b''" "[''@page'']" "''title=''" "[]"] a
    by blast
  have e: "tokenize [] [] None (''@page'' @ CHR '' '' # ''x'') =
           tokenize (if [] @ ''@page'' \<noteq> [] then [] @ [[] @ ''@page''] else []) [] None ''x''"
    using tokenize_quoted_span [where tks = "[]" and buf = "[]" and w = "''@page''"
        and sp = "CHR '' ''" and post = "''x''"] b c
    by blast
  show ?thesis using a b c d e by (simp add: is_space_def)
qed

section \<open>Properties of the scope transform engine\<close>

lemma warn_add: "warn e line ty msg mk =
   add_warnings [\<lparr>d_line = line, d_type = ty, d_message = msg, d_marker = mk\<rparr>] e"
  by (simp add: warn_def add_warnings_def recorded_def)

lemma add_warnings_twice: "add_warnings ds' (add_warnings ds e) = add_warnings (ds @ ds') e"
  by (simp add: add_warnings_def recorded_def)

lemma recorded_add: "recorded (add_warnings ds e) = recorded e @ ds"
  by (simp add: add_warnings_def recorded_def)

lemma rebase_fields [simp]:
  "out (rebase e st) = out st"
  "spreadOpen (rebase e st) = spreadOpen st"
  "pageOpen (rebase e st) = pageOpen st"
  "sectionOpen (rebase e st) = sectionOpen st"
  "spreadStartedWithNoPagesYet (rebase e st) = spreadStartedWithNoPagesYet st"
  "sawAnyPageInsideCurrentSpread (rebase e st) = sawAnyPageInsideCurrentSpread st"
  by (simp_all add: rebase_def)

lemma rebase_warning:
  "warning line ty msg mk (rebase e st) = rebase e (warning line ty msg mk st)"
  by (simp add: warning_def rebase_def warn_add add_warnings_twice recorded_add)

lemma rebase_out: "(rebase e st)\<lparr>out := ts\<rparr> = rebase e (st\<lparr>out := ts\<rparr>)"
  by (simp add: rebase_def)

lemma rebase_closeSection: "closeSection (rebase e st) = rebase e (closeSection st)"
  by (simp add: closeSection_def rebase_def)

lemma rebase_closePage: "closePage (rebase e st) = rebase e (closePage st)"
proof (cases "pageOpen st")
  case True
  then show ?thesis
    by (simp add: closePage_def Let_def rebase_closeSection) (simp add: rebase_def)
next
  case False
  then show ?thesis by (simp add: closePage_def)
qed

lemma rebase_closeSpread: "closeSpread (rebase e st) = rebase e (closeSpread st)"
proof (cases "spreadOpen st")
  case True
  then show ?thesis
    by (simp add: closeSpread_def Let_def rebase_closePage) (simp add: rebase_def)
next
  case False
  then show ?thesis by (simp add: closeSpread_def)
qed

lemma rebase_openSpread: "openSpread m (rebase e st) = rebase e (openSpread m st)"
  by (simp add: openSpread_def rebase_def Let_def)

lemma rebase_openSection: "openSection m (rebase e st) = rebase e (openSection m st)"
  by (simp add: openSection_def rebase_def Let_def)

lemma rebase_openPage: "openPage opts m (rebase e st) = rebase e (openPage opts m st)"
proof -
  let ?t = "attachDataAttrs (addClasses (Token ''layout_page_open'' ''div'' 1) ''page''
              (class_or_empty m)) ''page'' (m_name m) (m_attrs m)"
  have a: "(rebase e st)\<lparr>out := out st @ [?t], pageOpen := True\<rparr> =
        rebase e (st\<lparr>out := out st @ [?t], pageOpen := True\<rparr>)"
    by (simp add: rebase_def)
  show ?thesis
    unfolding openPage_def Let_def rebase_fields a
    by (simp add: rebase_warning) (simp add: rebase_def)
qed

lemma rebase_spread_branch:
  "spread_branch m line (rebase e st) = rebase e (spread_branch m line st)"
  by (simp add: spread_branch_def Let_def rebase_warning rebase_closeSpread rebase_openSpread)

lemma rebase_page_branch:
  "page_branch opts m (rebase e st) = rebase e (page_branch opts m st)"
  by (simp add: page_branch_def Let_def rebase_closePage rebase_openPage)

lemma rebase_section_branch:
  "section_branch opts m line (rebase e st) = rebase e (section_branch opts m line st)"
  by (simp add: section_branch_def Let_def rebase_warning rebase_closeSection rebase_openPage
      rebase_openSection)

lemma rebase_break_branch:
  "break_branch opts m line (rebase e st) = rebase e (break_branch opts m line st)"
  by (simp add: break_branch_def Let_def rebase_warning rebase_closeSection rebase_closePage
      rebase_closeSpread rebase_out)

lemma rebase_step: "step opts tok (rebase e st) = rebase e (step opts tok st)"
  by (simp add: step_def Let_def rebase_spread_branch rebase_page_branch rebase_section_branch
      rebase_break_branch rebase_out)

lemma rebase_run: "run opts toks (rebase e st) = rebase e (run opts toks st)"
  by (induction toks arbitrary: st) (simp_all add: rebase_step)

lemma rebase_finish: "finish (rebase e st) = rebase e (finish st)"
  by (simp add: finish_def Let_def rebase_warning rebase_closeSpread)

lemma rebase_initial: "initial_scope e = rebase e (initial_scope empty_collection)"
  by (simp add: initial_scope_def rebase_def empty_collection_def add_warnings_def recorded_def)

lemma transform_any_env:
  assumes "layoutMarkersUsed e"
  shows "layout_transform opts \<lparr>tokens = toks, env = e\<rparr> =
     \<lparr>tokens = tokens (layout_transform opts \<lparr>tokens = toks, env = empty_collection\<rparr>),
      env = add_warnings (emitted opts toks) e\<rparr>"
proof -
  let ?ref = "finish (run opts toks (initial_scope empty_collection))"
  have "finish (run opts toks (initial_scope e)) = rebase e ?ref"
    by (simp add: rebase_initial [of e] rebase_run rebase_finish)
  then show ?thesis
    using assms
    by (simp add: layout_transform_def emitted_def Let_def empty_collection_def rebase_def)
qed


lemma used_add_warnings: "layoutMarkersUsed (add_warnings ds e) = layoutMarkersUsed e"
  by (simp add: add_warnings_def)

lemmas engine_eval = layout_transform_def initial_scope_def finish_def step_def
  spread_branch_def page_branch_def section_branch_def break_branch_def warning_def
  closeSection_def closePage_def closeSpread_def openSpread_def openPage_def openSection_def
  warn_def line_or_0_def marker_token_def break_token_def default_options_def Let_def

text \<open>
  Claim C9. The transform is deterministic and keeps no state between runs: for an
  environment in which markers were used, the output tokens are those of the run on the
  same tokens with an empty collection, and the environment afterwards is the one before
  with the diagnostics \<open>emitted opts toks\<close> appended, so both depend on the options and
  the input tokens only. A second run on the same tokens, in the environment the first
  run left, appends the same diagnostics in the same order once more.
\<close>

theorem layout_transform_deterministic:
  "(layoutMarkersUsed e \<longrightarrow>
      tokens (layout_transform opts \<lparr>tokens = toks, env = e\<rparr>) =
        tokens (layout_transform opts \<lparr>tokens = toks, env = empty_collection\<rparr>) \<and>
      env (layout_transform opts \<lparr>tokens = toks, env = e\<rparr>) =
        add_warnings (emitted opts toks) e) \<and>
   (layoutMarkersUsed e \<longrightarrow>
      layout_transform opts
        \<lparr>tokens = toks, env = env (layout_transform opts \<lparr>tokens = toks, env = e\<rparr>)\<rparr> =
      \<lparr>tokens = tokens (layout_transform opts \<lparr>tokens = toks, env = e\<rparr>),
       env = add_warnings (emitted opts toks @ emitted opts toks) e\<rparr>)"
proof -
  have a: "layoutMarkersUsed e \<longrightarrow>
      tokens (layout_transform opts \<lparr>tokens = toks, env = e\<rparr>) =
        tokens (layout_transform opts \<lparr>tokens = toks, env = empty_collection\<rparr>) \<and>
      env (layout_transform opts \<lparr>tokens = toks, env = e\<rparr>) =
        add_warnings (emitted opts toks) e"
    by (simp add: transform_any_env)
  have b: "layoutMarkersUsed e \<longrightarrow>
      layout_transform opts
        \<lparr>tokens = toks, env = env (layout_transform opts \<lparr>tokens = toks, env = e\<rparr>)\<rparr> =
      \<lparr>tokens = tokens (layout_transform opts \<lparr>tokens = toks, env = e\<rparr>),
       env = add_warnings (emitted opts toks @ emitted opts toks) e\<rparr>"
  proof
    assume u: "layoutMarkersUsed e"
    then have u': "layoutMarkersUsed (add_warnings (emitted opts toks) e)"
      by (simp add: used_add_warnings)
    show "layout_transform opts
        \<lparr>tokens = toks, env = env (layout_transform opts \<lparr>tokens = toks, env = e\<rparr>)\<rparr> =
      \<lparr>tokens = tokens (layout_transform opts \<lparr>tokens = toks, env = e\<rparr>),
       env = add_warnings (emitted opts toks @ emitted opts toks) e\<rparr>"
      by (simp add: transform_any_env [OF u] transform_any_env [OF u'] add_warnings_twice)
  qed
  show ?thesis using a b by (rule conjI)
qed

lemma emitted_two_spreads:
  "emitted default_options two_spreads =
     [\<lparr>d_line = 2, d_type = ''nested_spread'', d_message = msg_nested_spread,
       d_marker = Some \<lparr>m_kind = Some ''spread'', m_name = Some ''t'', m_attrs = [],
                         m_line = Some 2\<rparr>\<rparr>,
      \<lparr>d_line = 0, d_type = ''spread_eof_close'', d_message = msg_spread_eof_close,
       d_marker = None\<rparr>]"
  by (simp add: emitted_def empty_collection_def recorded_def two_spreads_def engine_eval tok_eval)

text \<open>Witness for C9: two \<open>@spread\<close> markers in an environment without a collection.\<close>

theorem layout_transform_deterministic_witness:
  "layoutMarkersUsed no_collection \<and>
   env (layout_transform default_options \<lparr>tokens = two_spreads, env = no_collection\<rparr>) =
     add_warnings (emitted default_options two_spreads) no_collection \<and>
   length (emitted default_options two_spreads) = 2"
proof -
  have u: "layoutMarkersUsed no_collection" by (simp add: no_collection_def)
  show ?thesis
    using layout_transform_deterministic [of no_collection default_options two_spreads] u
    by (simp add: emitted_two_spreads)
qed

text \<open>
  Claim C2, as stated, fails: with no \<open>layoutWarnings\<close> in the environment, a second
  \<open>@spread\<close> while the first is open leaves the field present, holding the
  \<open>nested_spread\<close> diagnostic (and the \<open>spread_eof_close\<close> one of the end of the document).
\<close>

theorem absent_collection_counterexample:
  "layoutWarnings no_collection = None \<and>
   layoutWarnings
     (env (layout_transform default_options \<lparr>tokens = two_spreads, env = no_collection\<rparr>)) =
     Some [\<lparr>d_line = 2, d_type = ''nested_spread'', d_message = msg_nested_spread,
            d_marker = Some \<lparr>m_kind = Some ''spread'', m_name = Some ''t'', m_attrs = [],
                              m_line = Some 2\<rparr>\<rparr>,
           \<lparr>d_line = 0, d_type = ''spread_eof_close'', d_message = msg_spread_eof_close,
            d_marker = None\<rparr>]"
  by (simp add: no_collection_def two_spreads_def engine_eval tok_eval)

text \<open>
  Claim C2, amended. When the environment has no \<open>layoutWarnings\<close>, \<open>warn\<close> creates the
  collection at the first diagnostic and records every diagnostic in it: after the
  transform the field holds exactly the diagnostics that a run with a caller-supplied
  empty collection records, in the same order, and it is still absent only when the run
  emits none. The output tokens are those of the run with a supplied collection, and the
  transform has no failing path.
\<close>

theorem absent_collection_is_created:
  "(layoutWarnings e = None \<longrightarrow>
      layoutWarnings (warn e line ty msg mk) =
        Some [\<lparr>d_line = line, d_type = ty, d_message = msg, d_marker = mk\<rparr>]) \<and>
   (layoutWarnings e = None \<and> layoutMarkersUsed e \<longrightarrow>
      layoutWarnings (env (layout_transform opts \<lparr>tokens = toks, env = e\<rparr>)) =
        (if emitted opts toks = [] then None else Some (emitted opts toks)) \<and>
      tokens (layout_transform opts \<lparr>tokens = toks, env = e\<rparr>) =
        tokens (layout_transform opts \<lparr>tokens = toks, env = empty_collection\<rparr>))"
proof -
  have a: "layoutWarnings e = None \<longrightarrow>
      layoutWarnings (warn e line ty msg mk) =
        Some [\<lparr>d_line = line, d_type = ty, d_message = msg, d_marker = mk\<rparr>]"
    by (simp add: warn_def)
  have b: "layoutWarnings e = None \<and> layoutMarkersUsed e \<longrightarrow>
      layoutWarnings (env (layout_transform opts \<lparr>tokens = toks, env = e\<rparr>)) =
        (if emitted opts toks = [] then None else Some (emitted opts toks)) \<and>
      tokens (layout_transform opts \<lparr>tokens = toks, env = e\<rparr>) =
        tokens (layout_transform opts \<lparr>tokens = toks, env = empty_collection\<rparr>)"
    by (simp add: transform_any_env add_warnings_def recorded_def)
  show ?thesis using a b by (rule conjI)
qed

text \<open>Witness for the amended C2: two \<open>@spread\<close> markers and no collection.\<close>

theorem absent_collection_is_created_witness:
  "layoutWarnings no_collection = None \<and> layoutMarkersUsed no_collection \<and>
   emitted default_options two_spreads \<noteq> [] \<and>
   layoutWarnings
     (env (layout_transform default_options \<lparr>tokens = two_spreads, env = no_collection\<rparr>)) =
     Some (emitted default_options two_spreads)"
proof -
  have a: "layoutWarnings no_collection = None" by (simp add: no_collection_def)
  have b: "layoutMarkersUsed no_collection" by (simp add: no_collection_def)
  have c: "emitted default_options two_spreads \<noteq> []" by (simp add: emitted_two_spreads)
  show ?thesis
    using absent_collection_is_created [of no_collection _ _ _ _ default_options two_spreads]
      a b c by simp
qed

lemmas example_eval = mark_def opened_def closed_def no_collection_def

lemma break_token_eq:
  "break_token =
     (Token ''layout_break'' ''div'' 0)
       \<lparr>t_attrs := Some [(''class'', ''md-break''), (''aria-hidden'', ''true'')]\<rparr>"
  by (simp add: break_token_def attrSet_def Token_def)

lemma break_branch_out:
  "out (break_branch opts m line st) =
     out st @
     (if sectionOpen st then [closed ''layout_section_close'']
      else if pageOpen st then [closed ''layout_page_close'']
      else if spreadOpen st then [closed ''layout_spread_close'']
      else []) @
     [break_token]"
  by (simp add: break_branch_def Let_def warning_def closeSection_def closePage_def
      closeSpread_def closed_def)

lemma break_branch_flags:
  "sectionOpen (break_branch opts m line st) = False"
  "pageOpen (break_branch opts m line st) = (sectionOpen st \<and> pageOpen st)"
  "spreadOpen (break_branch opts m line st) = ((sectionOpen st \<or> pageOpen st) \<and> spreadOpen st)"
  by (auto simp: break_branch_def Let_def warning_def closeSection_def closePage_def
      closeSpread_def)

lemma step_break:
  "t_type tok = ''layout_marker'' \<Longrightarrow> t_meta tok = Some m \<Longrightarrow> m_kind m = Some ''break'' \<Longrightarrow>
   step opts tok st = break_branch opts m (line_or_0 m) st"
  by (simp add: step_def Let_def)

lemma scenario_d_run:
  "layout_transform default_options \<lparr>tokens = scenario_d, env = no_collection\<rparr> =
     \<lparr>tokens =
        [opened ''layout_spread_open'' [(''class'', ''spread''), (''data-spread'', ''s'')],
         opened ''layout_page_open'' [(''class'', ''page''), (''data-page'', ''p'')],
         opened ''layout_section_open'' [(''class'', ''region''), (''data-section'', ''a'')],
         closed ''layout_section_close'', break_token,
         closed ''layout_page_close'', break_token,
         closed ''layout_spread_close'', break_token],
      env = no_collection\<rparr>"
  by (simp add: scenario_d_def example_eval engine_eval tok_eval)

text \<open>
  Claim C5. A \<open>@break\<close> marker closes the nearest open scope only: the section if one
  is open, else the page, else the spread, and nothing when none is open; the scopes
  around the closed one stay open. It then emits one break node, whose attributes are
  \<open>class="md-break"\<close> and \<open>aria-hidden="true"\<close> and no other. For \<open>@spread s\<close>,
  \<open>@page p\<close>, \<open>@section a\<close> followed by three breaks, the breaks close the section,
  the page and the spread, in that order, with no diagnostic.
\<close>

theorem break_closes_nearest_scope:
  "(t_type tok = ''layout_marker'' \<and> t_meta tok = Some m \<and> m_kind m = Some ''break'' \<longrightarrow>
      out (step opts tok st) =
        out st @
        (if sectionOpen st then [closed ''layout_section_close'']
         else if pageOpen st then [closed ''layout_page_close'']
         else if spreadOpen st then [closed ''layout_spread_close'']
         else []) @
        [break_token] \<and>
      sectionOpen (step opts tok st) = False \<and>
      pageOpen (step opts tok st) = (sectionOpen st \<and> pageOpen st) \<and>
      spreadOpen (step opts tok st) = ((sectionOpen st \<or> pageOpen st) \<and> spreadOpen st)) \<and>
   break_token =
     (Token ''layout_break'' ''div'' 0)
       \<lparr>t_attrs := Some [(''class'', ''md-break''), (''aria-hidden'', ''true'')]\<rparr> \<and>
   layout_transform default_options \<lparr>tokens = scenario_d, env = no_collection\<rparr> =
     \<lparr>tokens =
        [opened ''layout_spread_open'' [(''class'', ''spread''), (''data-spread'', ''s'')],
         opened ''layout_page_open'' [(''class'', ''page''), (''data-page'', ''p'')],
         opened ''layout_section_open'' [(''class'', ''region''), (''data-section'', ''a'')],
         closed ''layout_section_close'', break_token,
         closed ''layout_page_close'', break_token,
         closed ''layout_spread_close'', break_token],
      env = no_collection\<rparr>"
proof -
  have a: "t_type tok = ''layout_marker'' \<and> t_meta tok = Some m \<and> m_kind m = Some ''break'' \<longrightarrow>
      out (step opts tok st) =
        out st @
        (if sectionOpen st then [closed ''layout_section_close'']
         else if pageOpen st then [closed ''layout_page_close'']
         else if spreadOpen st then [closed ''layout_spread_close'']
         else []) @
        [break_token] \<and>
      sectionOpen (step opts tok st) = False \<and>
      pageOpen (step opts tok st) = (sectionOpen st \<and> pageOpen st) \<and>
      spreadOpen (step opts tok st) = ((sectionOpen st \<or> pageOpen st) \<and> spreadOpen st)"
    by (simp add: step_break break_branch_out break_branch_flags)
  show ?thesis using a break_token_eq scenario_d_run by (intro conjI)
qed

text \<open>
  Witness for C5: a break on line 9 while a page and a spread are open and no section
  is: the page is closed and the spread stays open.
\<close>

theorem break_closes_nearest_scope_witness:
  "t_type (mark ''break'' [] 8) = ''layout_marker'' \<and>
   out (step default_options (mark ''break'' [] 8)
          ((initial_scope no_collection)\<lparr>spreadOpen := True, pageOpen := True\<rparr>)) =
     [closed ''layout_page_close'', break_token] \<and>
   \<not> pageOpen (step default_options (mark ''break'' [] 8)
          ((initial_scope no_collection)\<lparr>spreadOpen := True, pageOpen := True\<rparr>)) \<and>
   spreadOpen (step default_options (mark ''break'' [] 8)
          ((initial_scope no_collection)\<lparr>spreadOpen := True, pageOpen := True\<rparr>))"
proof -
  let ?m = "\<lparr>m_kind = Some ''break'', m_name = None, m_attrs = [], m_line = Some (9::nat)\<rparr>"
  have a: "t_type (mark ''break'' [] 8) = ''layout_marker''"
    by (simp add: mark_def marker_token_def Token_def)
  have b: "t_meta (mark ''break'' [] 8) = Some ?m"
    by (simp add: mark_def marker_token_def Token_def)
  have c: "m_kind ?m = Some ''break''" by simp
  show ?thesis
    using break_closes_nearest_scope [of "mark ''break'' [] 8" ?m default_options
        "(initial_scope no_collection)\<lparr>spreadOpen := True, pageOpen := True\<rparr>"] a b c
    by (simp add: initial_scope_def)
qed

lemma run_append: "run opts (xs @ ys) st = run opts ys (run opts xs st)"
  by (induction xs arbitrary: st) simp_all

lemma run_content:
  "\<forall>t\<in>set cs. t_type t \<noteq> ''layout_marker'' \<Longrightarrow> run opts cs st = st\<lparr>out := out st @ cs\<rparr>"
  by (induction cs arbitrary: st) (simp_all add: step_def)

lemma transform_used:
  "layoutMarkersUsed e \<Longrightarrow>
   layout_transform opts \<lparr>tokens = toks, env = e\<rparr> =
     \<lparr>tokens = out (finish (run opts toks (initial_scope e))),
      env = state_env (finish (run opts toks (initial_scope e)))\<rparr>"
  by (simp add: layout_transform_def Let_def)

lemma intro_marker_parsed:
  "parseMarkerLine ''@section intro'' =
     Inr (Some \<lparr>m_kind = Some ''section'', m_name = Some ''intro'', m_attrs = [],
                m_line = None\<rparr>)"
  by (simp add: parse_eval)

lemma section_step_no_page:
  assumes "implicitPage opts"
  shows "step opts (mark ''section'' ''intro'' n) ((initial_scope e)\<lparr>out := cs\<rparr>) =
     (initial_scope
        (add_warnings
          ([\<lparr>d_line = n + 1, d_type = ''implicit_page'', d_message = msg_implicit_page,
             d_marker = Some \<lparr>m_kind = Some ''section'', m_name = Some ''intro'', m_attrs = [],
                               m_line = Some (n + 1)\<rparr>\<rparr>] @
           (if preferPagesInSpreads opts then
              [\<lparr>d_line = n + 1, d_type = ''page_outside_spread'',
                d_message = msg_page_outside_spread,
                d_marker = Some \<lparr>m_kind = None, m_name = Some ''auto'', m_attrs = [],
                                  m_line = Some (n + 1)\<rparr>\<rparr>]
            else [])) e))
       \<lparr>out := cs @ [opened ''layout_page_open'' [(''class'', ''page''), (''data-page'', ''auto'')],
                      opened ''layout_section_open''
                        [(''class'', ''region''), (''data-section'', ''intro'')]],
        pageOpen := True, sectionOpen := True\<rparr>"
  using assms
  by (simp add: mark_def opened_def step_def section_branch_def closeSection_def openPage_def
      openSection_def warning_def warn_def line_or_0_def marker_token_def initial_scope_def
      add_warnings_def recorded_def Let_def tok_eval)


text \<open>
  Claim C8. With \<open>implicitPage\<close> enabled, a document whose only marker is a bare
  \<open>@section intro\<close> (on line \<open>n + 1\<close>, between content tokens) gives exactly one
  \<open>implicit_page\<close> diagnostic, carrying that line, and in the output a page-open node
  whose attributes are \<open>class="page"\<close> and \<open>data-page="auto"\<close> and no other, directly
  followed by the section-open node with \<open>data-section="intro"\<close>. (With
  \<open>preferPagesInSpreads\<close> the implicit page also gets a \<open>page_outside_spread\<close>
  diagnostic.)
\<close>

theorem bare_section_gets_implicit_page:
  "parseMarkerLine ''@section intro'' =
     Inr (Some \<lparr>m_kind = Some ''section'', m_name = Some ''intro'', m_attrs = [],
                m_line = None\<rparr>) \<and>
   (implicitPage opts \<and> layoutMarkersUsed e \<and>
    (\<forall>t\<in>set before. t_type t \<noteq> ''layout_marker'') \<and>
    (\<forall>t\<in>set after. t_type t \<noteq> ''layout_marker'') \<longrightarrow>
      layout_transform opts
        \<lparr>tokens = before @ [mark ''section'' ''intro'' n] @ after, env = e\<rparr> =
      \<lparr>tokens =
         before @
         [opened ''layout_page_open'' [(''class'', ''page''), (''data-page'', ''auto'')],
          opened ''layout_section_open'' [(''class'', ''region''), (''data-section'', ''intro'')]] @
         after,
       env =
         add_warnings
          ([\<lparr>d_line = n + 1, d_type = ''implicit_page'', d_message = msg_implicit_page,
             d_marker = Some \<lparr>m_kind = Some ''section'', m_name = Some ''intro'', m_attrs = [],
                               m_line = Some (n + 1)\<rparr>\<rparr>] @
           (if preferPagesInSpreads opts then
              [\<lparr>d_line = n + 1, d_type = ''page_outside_spread'',
                d_message = msg_page_outside_spread,
                d_marker = Some \<lparr>m_kind = None, m_name = Some ''auto'', m_attrs = [],
                                  m_line = Some (n + 1)\<rparr>\<rparr>]
            else [])) e\<rparr>)"
proof (intro conjI impI)
  show "parseMarkerLine ''@section intro'' =
     Inr (Some \<lparr>m_kind = Some ''section'', m_name = Some ''intro'', m_attrs = [],
                m_line = None\<rparr>)"
    by (rule intro_marker_parsed)
next
  assume h: "implicitPage opts \<and> layoutMarkersUsed e \<and>
    (\<forall>t\<in>set before. t_type t \<noteq> ''layout_marker'') \<and>
    (\<forall>t\<in>set after. t_type t \<noteq> ''layout_marker'')"
  let ?tok = "mark ''section'' ''intro'' n"
  define ds where "ds =
          [\<lparr>d_line = n + 1, d_type = ''implicit_page'', d_message = msg_implicit_page,
             d_marker = Some \<lparr>m_kind = Some ''section'', m_name = Some ''intro'', m_attrs = [],
                               m_line = Some (n + 1)\<rparr>\<rparr>] @
           (if preferPagesInSpreads opts then
              [\<lparr>d_line = n + 1, d_type = ''page_outside_spread'',
                d_message = msg_page_outside_spread,
                d_marker = Some \<lparr>m_kind = None, m_name = Some ''auto'', m_attrs = [],
                                  m_line = Some (n + 1)\<rparr>\<rparr>]
            else [])"
  define ws where "ws =
         [opened ''layout_page_open'' [(''class'', ''page''), (''data-page'', ''auto'')],
          opened ''layout_section_open'' [(''class'', ''region''), (''data-section'', ''intro'')]]"
  have 1: "run opts before (initial_scope e) = (initial_scope e)\<lparr>out := before\<rparr>"
    using h by (simp add: run_content) (simp add: initial_scope_def)
  have 2: "step opts ?tok ((initial_scope e)\<lparr>out := before\<rparr>) =
        (initial_scope (add_warnings ds e))
          \<lparr>out := before @ ws, pageOpen := True, sectionOpen := True\<rparr>"
    unfolding ds_def ws_def using h by (simp only: section_step_no_page)
  have 3: "run opts after
        ((initial_scope (add_warnings ds e))
          \<lparr>out := before @ ws, pageOpen := True, sectionOpen := True\<rparr>) =
        (initial_scope (add_warnings ds e))
          \<lparr>out := before @ ws @ after, pageOpen := True, sectionOpen := True\<rparr>"
    using h by (simp add: run_content)
  have 4: "run opts (before @ [?tok] @ after) (initial_scope e) =
        (initial_scope (add_warnings ds e))
          \<lparr>out := before @ ws @ after, pageOpen := True, sectionOpen := True\<rparr>"
    by (simp only: run_append 1 run.simps 2 3)
  have 5: "finish ((initial_scope (add_warnings ds e))
          \<lparr>out := before @ ws @ after, pageOpen := True, sectionOpen := True\<rparr>) =
        (initial_scope (add_warnings ds e))
          \<lparr>out := before @ ws @ after, pageOpen := True, sectionOpen := True\<rparr>"
    by (simp add: finish_def closeSpread_def initial_scope_def)
  have 6: "finish (run opts (before @ [?tok] @ after) (initial_scope e)) =
        (initial_scope (add_warnings ds e))
          \<lparr>out := before @ ws @ after, pageOpen := True, sectionOpen := True\<rparr>"
    by (simp only: 4 5)
  from h have u: "layoutMarkersUsed e" by simp
  have "layout_transform opts \<lparr>tokens = before @ [?tok] @ after, env = e\<rparr> =
      \<lparr>tokens = before @ ws @ after, env = add_warnings ds e\<rparr>"
    unfolding transform_used [OF u] 6 by (simp add: initial_scope_def)
  then show "layout_transform opts \<lparr>tokens = before @ [?tok] @ after, env = e\<rparr> =
      \<lparr>tokens =
         before @
         [opened ''layout_page_open'' [(''class'', ''page''), (''data-page'', ''auto'')],
          opened ''layout_section_open'' [(''class'', ''region''), (''data-section'', ''intro'')]] @
         after,
       env =
         add_warnings
          ([\<lparr>d_line = n + 1, d_type = ''implicit_page'', d_message = msg_implicit_page,
             d_marker = Some \<lparr>m_kind = Some ''section'', m_name = Some ''intro'', m_attrs = [],
                               m_line = Some (n + 1)\<rparr>\<rparr>] @
           (if preferPagesInSpreads opts then
              [\<lparr>d_line = n + 1, d_type = ''page_outside_spread'',
                d_message = msg_page_outside_spread,
                d_marker = Some \<lparr>m_kind = None, m_name = Some ''auto'', m_attrs = [],
                                  m_line = Some (n + 1)\<rparr>\<rparr>]
            else [])) e\<rparr>"
    by (simp only: ds_def ws_def)
qed

text \<open>
  Witness for C8: the document \<open>@section intro\<close>, \<open>Hello\<close> of the repository's test,
  with the default options and no collection.
\<close>

theorem bare_section_gets_implicit_page_witness:
  "implicitPage default_options \<and> layoutMarkersUsed no_collection \<and>
   list_all (\<lambda>t. t_type t \<noteq> ''layout_marker'') (para_tokens ''Hello'') \<and>
   layout_transform default_options
     \<lparr>tokens = mark ''section'' ''intro'' 0 # para_tokens ''Hello'', env = no_collection\<rparr> =
   \<lparr>tokens =
      [opened ''layout_page_open'' [(''class'', ''page''), (''data-page'', ''auto'')],
       opened ''layout_section_open'' [(''class'', ''region''), (''data-section'', ''intro'')]] @
      para_tokens ''Hello'',
    env =
      \<lparr>layoutWarnings =
         Some [\<lparr>d_line = 1, d_type = ''implicit_page'', d_message = msg_implicit_page,
                d_marker = Some \<lparr>m_kind = Some ''section'', m_name = Some ''intro'',
                                  m_attrs = [], m_line = Some 1\<rparr>\<rparr>],
       layoutMarkersUsed = True\<rparr>\<rparr>"
proof -
  have a: "implicitPage default_options" "\<not> preferPagesInSpreads default_options"
    by (simp_all add: default_options_def)
  have b: "layoutMarkersUsed no_collection" by (simp add: no_collection_def)
  have c: "list_all (\<lambda>t. t_type t \<noteq> ''layout_marker'') (para_tokens ''Hello'')"
    by (simp add: para_tokens_def Token_def)
  then have d: "\<forall>t\<in>set (para_tokens ''Hello''). t_type t \<noteq> ''layout_marker''"
    by (simp add: list_all_iff)
  have e: "\<forall>t\<in>set ([]::token list). t_type t \<noteq> ''layout_marker''" by simp
  have "layout_transform default_options
     \<lparr>tokens = [] @ [mark ''section'' ''intro'' 0] @ para_tokens ''Hello'', env = no_collection\<rparr> =
      \<lparr>tokens =
         [] @
         [opened ''layout_page_open'' [(''class'', ''page''), (''data-page'', ''auto'')],
          opened ''layout_section_open'' [(''class'', ''region''), (''data-section'', ''intro'')]] @
         para_tokens ''Hello'',
       env =
         add_warnings
          ([\<lparr>d_line = 0 + 1, d_type = ''implicit_page'', d_message = msg_implicit_page,
             d_marker = Some \<lparr>m_kind = Some ''section'', m_name = Some ''intro'', m_attrs = [],
                               m_line = Some (0 + 1)\<rparr>\<rparr>] @
           (if preferPagesInSpreads default_options then
              [\<lparr>d_line = 0 + 1, d_type = ''page_outside_spread'',
                d_message = msg_page_outside_spread,
                d_marker = Some \<lparr>m_kind = None, m_name = Some ''auto'', m_attrs = [],
                                  m_line = Some (0 + 1)\<rparr>\<rparr>]
            else [])) no_collection\<rparr>"
    using bare_section_gets_implicit_page
      [of default_options no_collection "[]" "para_tokens ''Hello''" 0] a(1) b d e
    by blast
  then show ?thesis
    using a b c by (simp add: add_warnings_def recorded_def no_collection_def)
qed

text \<open>
  Claim C1 fails on the code. A \<open>@page\<close> outside a spread is never closed: the final
  \<open>closeSpread()\<close> returns at once when no spread is open, before it reaches
  \<open>closePage()\<close>, so the output of \<open>@page p\<close> and a paragraph has a page-open node
  and no page-close node. The same early return lets a page that was opened before a spread be
  closed inside it: \<open>@page p\<close>, \<open>@spread s\<close>, \<open>@page q\<close> opens the first page
  outside the spread and closes it inside.
\<close>

theorem page_outside_spread_left_open:
  "tokens (layout_transform default_options
     \<lparr>tokens = mark ''page'' ''p'' 0 # para_tokens ''text'', env = no_collection\<rparr>) =
     opened ''layout_page_open'' [(''class'', ''page''), (''data-page'', ''p'')] #
     para_tokens ''text'' \<and>
   tokens (layout_transform default_options
     \<lparr>tokens = [mark ''page'' ''p'' 0, mark ''spread'' ''s'' 1, mark ''page'' ''q'' 2],
      env = no_collection\<rparr>) =
     [opened ''layout_page_open'' [(''class'', ''page''), (''data-page'', ''p'')],
      opened ''layout_spread_open'' [(''class'', ''spread''), (''data-spread'', ''s'')],
      closed ''layout_page_close'',
      opened ''layout_page_open'' [(''class'', ''page''), (''data-page'', ''q'')],
      closed ''layout_page_close'',
      closed ''layout_spread_close'']"
proof -
  have a: "tokens (layout_transform default_options
     \<lparr>tokens = mark ''page'' ''p'' 0 # para_tokens ''text'', env = no_collection\<rparr>) =
     opened ''layout_page_open'' [(''class'', ''page''), (''data-page'', ''p'')] #
     para_tokens ''text''"
    by (simp add: example_eval para_tokens_def engine_eval tok_eval)
  have b: "tokens (layout_transform default_options
     \<lparr>tokens = [mark ''page'' ''p'' 0, mark ''spread'' ''s'' 1, mark ''page'' ''q'' 2],
      env = no_collection\<rparr>) =
     [opened ''layout_page_open'' [(''class'', ''page''), (''data-page'', ''p'')],
      opened ''layout_spread_open'' [(''class'', ''spread''), (''data-spread'', ''s'')],
      closed ''layout_page_close'',
      opened ''layout_page_open'' [(''class'', ''page''), (''data-page'', ''q'')],
      closed ''layout_page_close'',
      closed ''layout_spread_close'']"
    by (simp add: example_eval engine_eval tok_eval)
  show ?thesis using a b by (rule conjI)
qed

text \<open>
  Claim C4 fails on the code. For \<open>@spread s\<close>, \<open>@section a\<close> with the default options
  (\<open>implicitPage\<close> enabled) the section is processed while the spread is open and has
  seen no page, yet the only diagnostic is \<open>implicit_page\<close>: opening the implicit page
  clears \<open>spreadStartedWithNoPagesYet\<close> before the test for \<open>spread_without_pages\<close>
  reads it. With \<open>implicitPage\<close> disabled both \<open>section_without_page\<close> and
  \<open>spread_without_pages\<close> are recorded.
\<close>

theorem implicit_page_hides_spread_without_pages:
  "map d_type (recorded (env (layout_transform default_options
     \<lparr>tokens = [mark ''spread'' ''s'' 0, mark ''section'' ''a'' 1], env = no_collection\<rparr>))) =
     [''implicit_page''] \<and>
   map d_type (recorded (env (layout_transform (default_options\<lparr>implicitPage := False\<rparr>)
     \<lparr>tokens = [mark ''spread'' ''s'' 0, mark ''section'' ''a'' 1], env = no_collection\<rparr>))) =
     [''section_without_page'', ''spread_without_pages'', ''spread_eof_close'']"
proof -
  have a: "map d_type (recorded (env (layout_transform default_options
     \<lparr>tokens = [mark ''spread'' ''s'' 0, mark ''section'' ''a'' 1], env = no_collection\<rparr>))) =
     [''implicit_page'']"
    by (simp add: example_eval engine_eval tok_eval recorded_def)
  have b: "map d_type (recorded (env (layout_transform (default_options\<lparr>implicitPage := False\<rparr>)
     \<lparr>tokens = [mark ''spread'' ''s'' 0, mark ''section'' ''a'' 1], env = no_collection\<rparr>))) =
     [''section_without_page'', ''spread_without_pages'', ''spread_eof_close'']"
    by (simp add: example_eval engine_eval tok_eval recorded_def)
  show ?thesis using a b by (rule conjI)
qed

end
